theory Spec2Isabelle
  imports Main
begin

section \<open>JavaScript values\<close>

text \<open>
  The services exchange untyped JavaScript values: the parsed scan report, the bodies of
  the collaborators' HTTP responses, the conversation log. Numbers are modelled as
  integers (the ordinal risk level, page numbers); an object is its list of properties
  in insertion order.
\<close>

datatype jsval =
    JUndefined
  | JNull
  | JBool bool
  | JNum int
  | JStr string
  | JArr "jsval list"
  | JObj "(string \<times> jsval) list"

datatype error =
    AppError jsval nat
  | Error string
  | ExecError string
  | TypeError string
  | SyntaxError string
  | FsError string

text \<open>\<open>!v\<close> is \<open>\<not> js_truthy v\<close>; \<open>a || b\<close> is \<open>js_or a b\<close>; \<open>a ?? b\<close> is \<open>js_nullish a b\<close>.\<close>

fun js_truthy :: "jsval \<Rightarrow> bool" where
  "js_truthy JUndefined = False"
| "js_truthy JNull = False"
| "js_truthy (JBool b) = b"
| "js_truthy (JNum n) = (n \<noteq> 0)"
| "js_truthy (JStr s) = (s \<noteq> [])"
| "js_truthy (JArr xs) = True"
| "js_truthy (JObj kvs) = True"

definition js_or :: "jsval \<Rightarrow> jsval \<Rightarrow> jsval" where
  "js_or a b = (if js_truthy a then a else b)"

definition js_nullish :: "jsval \<Rightarrow> jsval \<Rightarrow> jsval" where
  "js_nullish a b = (if a = JUndefined \<or> a = JNull then b else a)"

text \<open>
  Property read \<open>v.k\<close>: a TypeError on \<open>undefined\<close> and \<open>null\<close>, the property's value
  on an object, \<open>undefined\<close> where the object has no such property and on the other
  values (none of the names read by the services is a built-in property of a string,
  number, boolean or array).
\<close>

fun get_prop :: "jsval \<Rightarrow> string \<Rightarrow> error + jsval" where
  "get_prop JUndefined k = Inl (TypeError (''Cannot read properties of undefined, reading '' @ k))"
| "get_prop JNull k = Inl (TypeError (''Cannot read properties of null, reading '' @ k))"
| "get_prop (JObj kvs) k = (case map_of kvs k of Some v \<Rightarrow> Inr v | None \<Rightarrow> Inr JUndefined)"
| "get_prop v k = Inr JUndefined"

text \<open>Optional chaining \<open>v?.k\<close>.\<close>

definition get_prop_opt :: "jsval \<Rightarrow> string \<Rightarrow> jsval" where
  "get_prop_opt v k = (case get_prop v k of Inl e \<Rightarrow> JUndefined | Inr x \<Rightarrow> x)"

text \<open>
  What \<open>JSON.parse (JSON.stringify v)\<close> yields for a value that is not \<open>undefined\<close>
  itself: a property whose value is \<open>undefined\<close> is dropped, an \<open>undefined\<close> array
  element becomes \<open>null\<close>.
\<close>

fun json_norm :: "jsval \<Rightarrow> jsval" where
  "json_norm (JArr xs) = JArr (map (\<lambda>x. if x = JUndefined then JNull else json_norm x) xs)"
| "json_norm (JObj kvs) =
     JObj (map (\<lambda>kv. (fst kv, json_norm (snd kv))) (filter (\<lambda>kv. snd kv \<noteq> JUndefined) kvs))"
| "json_norm v = v"

text \<open>The same for one element of an array.\<close>

definition elem_norm :: "jsval \<Rightarrow> jsval" where
  "elem_norm x = (if x = JUndefined then JNull else json_norm x)"

section \<open>Paths\<close>

text \<open>
  Node's \<open>path\<close> module in its POSIX flavour (separator \<open>/\<close>): a path string is cut into
  its segments, and \<open>normalizeString\<close> removes empty and \<open>.\<close> segments and lets a
  \<open>..\<close> segment cancel the segment before it.
\<close>

fun split_sep :: "string \<Rightarrow> string list" where
  "split_sep [] = [[]]"
| "split_sep (c # cs) =
     (if c = CHR ''/'' then [] # split_sep cs
      else (case split_sep cs of [] \<Rightarrow> [[c]] | s # ss \<Rightarrow> (c # s) # ss))"

fun join_sep :: "string list \<Rightarrow> string" where
  "join_sep [] = []"
| "join_sep [s] = s"
| "join_sep (s # t # ss) = s @ ''/'' @ join_sep (t # ss)"

definition norm_step :: "bool \<Rightarrow> string list \<Rightarrow> string \<Rightarrow> string list" where
  "norm_step allowAboveRoot res seg =
     (if seg = [] \<or> seg = ''.'' then res
      else if seg = ''..'' then
        (if res \<noteq> [] \<and> last res \<noteq> ''..'' then butlast res
         else if allowAboveRoot then res @ [''..'']
         else res)
      else res @ [seg])"

definition normalizeString :: "string \<Rightarrow> bool \<Rightarrow> string list" where
  "normalizeString p allowAboveRoot = foldl (norm_step allowAboveRoot) [] (split_sep p)"

definition isAbsolute :: "string \<Rightarrow> bool" where
  "isAbsolute p = (p \<noteq> [] \<and> hd p = CHR ''/'')"

definition path_normalize :: "string \<Rightarrow> string" where
  "path_normalize p =
     (if p = [] then ''.''
      else
        (let trailingSeparator = (last p = CHR ''/'');
             segs = normalizeString p (\<not> isAbsolute p)
         in if segs = [] then
              (if isAbsolute p then ''/'' else if trailingSeparator then ''./'' else ''.'')
            else (if isAbsolute p then ''/'' else []) @ join_sep segs
                 @ (if trailingSeparator then ''/'' else [])))"

definition path_join :: "string list \<Rightarrow> string" where
  "path_join parts =
     (let joined = join_sep (filter (\<lambda>s. s \<noteq> []) parts)
      in if joined = [] then ''.'' else path_normalize joined)"






section \<open>The file store and the collaborators\<close>

text \<open>
  A file holds plain text or a JSON document. A JSON document is represented by a value
  it is the serialisation of, so that \<open>JSON.stringify\<close> followed by \<open>JSON.parse\<close> is
  \<open>json_norm\<close>; \<open>Text\<close> is text that \<open>JSON.parse\<close> rejects, and text that is written and
  never parsed.
\<close>

datatype content = Text string | JsonDoc jsval

datatype node = Dir | File content

type_synonym fs = "string list \<rightharpoonup> node"

text \<open>
  The calls that leave the process: the scanner process, and the two HTTP posts
  (session identifier and file path, session identifier and question).
\<close>

datatype call =
    ExecFile string "string list"
  | PostSummarize string string
  | PostAsk string jsval

record world =
  cwd :: string
  files :: fs
  calls :: "call list"

text \<open>
  The store is keyed by the resolved path; the root is a directory. The faults of the
  file system that depend on what exists are part of the model (a missing parent, a
  directory or a regular file in the wrong place); permissions and device errors are
  not.
\<close>

definition node_at :: "fs \<Rightarrow> string list \<Rightarrow> node option" where
  "node_at f k = (if k = [] then Some Dir else f k)"

text \<open>
  The file system resolves a path component by component: before each component the
  place reached so far must be a directory, so \<open>a/b/../c\<close> names nothing unless
  \<open>a/b\<close> is a directory, and \<open>a/\<close> names nothing when \<open>a\<close> is a regular file. The
  last component need not exist. (There are no symbolic links in the model.)
\<close>

fun walk :: "fs \<Rightarrow> string list \<Rightarrow> string list \<Rightarrow> string list option" where
  "walk f cur [] = Some cur"
| "walk f cur (seg # segs) =
     (if node_at f cur = Some Dir then walk f (norm_step False cur seg) segs else None)"

definition start_of :: "world \<Rightarrow> string \<Rightarrow> string list" where
  "start_of w p = (if isAbsolute p then [] else normalizeString (cwd w) False)"

definition fs_key :: "world \<Rightarrow> string \<Rightarrow> string list option" where
  "fs_key w p = (if p = [] then None else walk (files w) (start_of w p) (split_sep p))"

definition lookup :: "world \<Rightarrow> string \<Rightarrow> node option" where
  "lookup w p = (case fs_key w p of None \<Rightarrow> None | Some k \<Rightarrow> node_at (files w) k)"

definition existsSync :: "world \<Rightarrow> string \<Rightarrow> bool" where
  "existsSync w p = (lookup w p \<noteq> None)"

definition isDirectory :: "world \<Rightarrow> string \<Rightarrow> bool" where
  "isDirectory w p = (lookup w p = Some Dir)"

text \<open>
  \<open>fs.mkdirSync(p, {recursive: true})\<close>: walking along \<open>p\<close>, every missing directory
  is created; a regular file on the way is an error, and then nothing has been created.
\<close>

fun mkwalk :: "fs \<Rightarrow> string list \<Rightarrow> string list \<Rightarrow> error + fs" where
  "mkwalk f cur [] = Inr f"
| "mkwalk f cur (seg # segs) =
     (case node_at f cur of
        None \<Rightarrow> Inl (FsError ''ENOENT'')
      | Some (File c) \<Rightarrow> Inl (FsError ''ENOTDIR'')
      | Some Dir \<Rightarrow>
          (case node_at f (norm_step False cur seg) of
             None \<Rightarrow> mkwalk (f(norm_step False cur seg \<mapsto> Dir)) (norm_step False cur seg) segs
           | Some Dir \<Rightarrow> mkwalk f (norm_step False cur seg) segs
           | Some (File c) \<Rightarrow> Inl (FsError (if segs = [] then ''EEXIST'' else ''ENOTDIR''))))"

definition mkdirSync :: "world \<Rightarrow> string \<Rightarrow> error + world" where
  "mkdirSync w p =
     (if p = [] then Inl (FsError ''ENOENT'')
      else (case mkwalk (files w) (start_of w p) (split_sep p) of
              Inl e \<Rightarrow> Inl e
            | Inr f \<Rightarrow> Inr (w\<lparr>files := f\<rparr>)))"

definition readFileSync :: "world \<Rightarrow> string \<Rightarrow> error + content" where
  "readFileSync w p =
     (case lookup w p of
        None \<Rightarrow> Inl (FsError ''ENOENT'')
      | Some Dir \<Rightarrow> Inl (FsError ''EISDIR'')
      | Some (File c) \<Rightarrow> Inr c)"

definition writeFileSync :: "world \<Rightarrow> string \<Rightarrow> content \<Rightarrow> error + world" where
  "writeFileSync w p c =
     (case fs_key w p of
        None \<Rightarrow> Inl (FsError ''ENOENT'')
      | Some k \<Rightarrow>
          if node_at (files w) k = Some Dir then Inl (FsError ''EISDIR'')
          else (case node_at (files w) (butlast k) of
                  None \<Rightarrow> Inl (FsError ''ENOENT'')
                | Some (File d) \<Rightarrow> Inl (FsError ''ENOTDIR'')
                | Some Dir \<Rightarrow> Inr (w\<lparr>files := (files w)(k \<mapsto> File c)\<rparr>)))"


definition JSON_parse :: "content \<Rightarrow> error + jsval" where
  "JSON_parse c =
     (case c of
        Text s \<Rightarrow> Inl (SyntaxError ''Unexpected token'')
      | JsonDoc v \<Rightarrow> Inr (json_norm v))"

definition JSON_stringify :: "jsval \<Rightarrow> content" where
  "JSON_stringify v = JsonDoc v"

text \<open>
  The settled promise of an \<open>axios.post\<close>: fulfilled with the response body, or rejected
  with an error carrying an optional \<open>code\<close>, an optional \<open>response\<close> (status and body)
  and a message.
\<close>

record axios_error =
  err_code :: "string option"
  err_response :: "(nat \<times> jsval) option"
  err_message :: string

datatype axios_result = Fulfilled jsval | Failed axios_error



section \<open>CyberService\<close>



section \<open>AiService\<close>

text \<open>
  An exception thrown inside a \<open>try\<close> block reaches the \<open>catch\<close> block as an error object
  without a \<open>response\<close>; a file-system error carries its code.
\<close>

fun error_message :: "error \<Rightarrow> string" where
  "error_message (AppError m st) = (case m of JStr s \<Rightarrow> s | _ \<Rightarrow> [])"
| "error_message (Error m) = m"
| "error_message (ExecError m) = m"
| "error_message (TypeError m) = m"
| "error_message (SyntaxError m) = m"
| "error_message (FsError c) = c"

definition as_caught :: "error \<Rightarrow> axios_error" where
  "as_caught e =
     \<lparr>err_code = (case e of FsError c \<Rightarrow> Some c | _ \<Rightarrow> None),
      err_response = None,
      err_message = error_message e\<rparr>"

text \<open>The \<open>catch\<close> block of \<open>summarize\<close>: the error it throws.\<close>

definition summarize_catch :: "axios_error \<Rightarrow> error" where
  "summarize_catch error =
     (if err_code error = Some ''ECONNABORTED'' then
        AppError (JStr ''AI service took too long to respond. Please try a smaller file.'') 504
      else
        (case err_response error of
           Some (status, data) \<Rightarrow>
             (case get_prop data ''detail'' of
                Inl e \<Rightarrow> e
              | Inr detail \<Rightarrow> AppError (js_or detail (JStr ''AI service error'')) status)
         | None \<Rightarrow>
             if err_code error = Some ''ECONNREFUSED'' then
               AppError (JStr ''AI service unavailable. Make sure Python server is running on port 8000.'') 503
             else AppError (JStr (''AI service error: '' @ err_message error)) 503))"

definition summarize :: "world \<Rightarrow> string \<Rightarrow> string \<Rightarrow> axios_result \<Rightarrow> (error + string) \<times> world" where
  "summarize w sessionId filePath reply =
     (if sessionId = [] \<or> filePath = [] then
        (Inl (AppError (JStr ''Missing Session Id or filePath'') 400), w)
      else if \<not> existsSync w filePath then
        (Inl (AppError (JStr (''File not found: '' @ filePath)) 404), w)
      else if isDirectory w filePath then
        (Inl (AppError (JStr ''Expected a file but got a directory'') 400), w)
      else
        (let sessionFolder = path_join [''uploads'', sessionId]
         in case (if \<not> existsSync w sessionFolder then mkdirSync w sessionFolder else Inr w) of
              Inl e \<Rightarrow> (Inl e, w)
            | Inr w1 \<Rightarrow>
                (let w2 = w1\<lparr>calls := calls w1 @ [PostSummarize sessionId filePath]\<rparr>
                 in case reply of
                      Failed error \<Rightarrow> (Inl (summarize_catch error), w2)
                    | Fulfilled data \<Rightarrow>
                        (case get_prop data ''summary'' of
                           Inl e \<Rightarrow> (Inl (summarize_catch (as_caught e)), w2)
                         | Inr summary \<Rightarrow>
                             (let summaryPath = path_join [sessionFolder, ''summary.txt'']
                              in case summary of
                                   JStr s \<Rightarrow>
                                     (case writeFileSync w2 summaryPath (Text s) of
                                        Inl e \<Rightarrow> (Inl (summarize_catch (as_caught e)), w2)
                                      | Inr w3 \<Rightarrow> (Inr s, w3))
                                 | _ \<Rightarrow>
                                     (Inl (summarize_catch (as_caught
                                        (TypeError ''The data argument must be of type string''))), w2))))))"

text \<open>Lines 188 to 192 of \<open>askQuestion\<close>: the log the call starts from.\<close>

definition load_messages :: "world \<Rightarrow> string \<Rightarrow> error + jsval list" where
  "load_messages w chatFile =
     (if existsSync w chatFile then
        (case readFileSync w chatFile of
           Inl e \<Rightarrow> Inl e
         | Inr c \<Rightarrow>
             (case JSON_parse c of
                Inl e \<Rightarrow> Inl e
              | Inr raw \<Rightarrow> (case raw of JArr xs \<Rightarrow> Inr xs | _ \<Rightarrow> Inr [])))
      else Inr [])"

text \<open>The \<open>catch\<close> block of \<open>askQuestion\<close>.\<close>

definition ask_catch :: "axios_error \<Rightarrow> error" where
  "ask_catch error =
     (case err_response error of
        Some (status, data) \<Rightarrow>
          (case get_prop data ''detail'' of
             Inl e \<Rightarrow> e
           | Inr detail \<Rightarrow> AppError (js_or detail (JStr ''AI service error'')) status)
      | None \<Rightarrow> AppError (JStr ''AI service unavailable'') 503)"

text \<open>The \<open>try\<close> block of \<open>askQuestion\<close>: the answer and the sources, or the error thrown.\<close>

definition ask_remote :: "axios_result \<Rightarrow> error + jsval \<times> jsval" where
  "ask_remote reply =
     (case reply of
        Failed error \<Rightarrow> Inl (ask_catch error)
      | Fulfilled aiData \<Rightarrow>
          (case (case aiData of JStr s \<Rightarrow> Inr aiData | _ \<Rightarrow> get_prop aiData ''answer'') of
             Inl e \<Rightarrow> Inl (ask_catch (as_caught e))
           | Inr answer \<Rightarrow> Inr (answer, js_nullish (get_prop_opt aiData ''sources'') (JArr []))))"

text \<open>
  \<open>askQuestion\<close> is an \<open>async\<close> function that awaits the post: between the part before
  the \<open>await\<close> and the part after it other requests run. What the suspended call holds
  is the path of the chat file and the log in memory, the user turn already appended.
\<close>

record pending_ask =
  pa_chatFile :: string
  pa_messages :: "jsval list"

text \<open>Lines 177 to 214: up to the moment the post has been sent.\<close>

definition ask_begin :: "world \<Rightarrow> string \<Rightarrow> jsval \<Rightarrow> (error + pending_ask) \<times> world" where
  "ask_begin w sessionId question =
     (if sessionId = [] \<or> \<not> js_truthy question then
        (Inl (AppError (JStr ''Missing sessionId or question'') 400), w)
      else
        (let sessionFolder = path_join [''uploads'', sessionId]
         in if \<not> existsSync w sessionFolder then
              (Inl (AppError (JStr ''Session Folder Not Found'') 404), w)
            else
              (let chatFile = path_join [sessionFolder, ''chat.json'']
               in case load_messages w chatFile of
                    Inl e \<Rightarrow> (Inl e, w)
                  | Inr loaded \<Rightarrow>
                      (Inr \<lparr>pa_chatFile = chatFile,
                            pa_messages = loaded @ [JObj [(''role'', JStr ''user''), (''content'', question)]]\<rparr>,
                       w\<lparr>calls := calls w @ [PostAsk sessionId question]\<rparr>))))"

text \<open>Lines 216 to 239: from the settled post to the result.\<close>

definition ask_end :: "world \<Rightarrow> pending_ask \<Rightarrow> axios_result \<Rightarrow> (error + jsval list) \<times> world" where
  "ask_end w pending reply =
     (case ask_remote reply of
        Inl e \<Rightarrow> (Inl e, w)
      | Inr (answer, sources) \<Rightarrow>
          (let messages = pa_messages pending
                 @ [JObj [(''role'', JStr ''assistant''), (''content'', answer), (''sources'', sources)]]
           in case writeFileSync w (pa_chatFile pending) (JSON_stringify (JArr messages)) of
                Inl e \<Rightarrow> (Inl e, w)
              | Inr w2 \<Rightarrow> (Inr messages, w2)))"

text \<open>A call that nothing interrupts.\<close>

definition askQuestion :: "world \<Rightarrow> string \<Rightarrow> jsval \<Rightarrow> axios_result \<Rightarrow> (error + jsval list) \<times> world" where
  "askQuestion w sessionId question reply =
     (case ask_begin w sessionId question of
        (Inl e, w1) \<Rightarrow> (Inl e, w1)
      | (Inr pending, w1) \<Rightarrow> ask_end w1 pending reply)"

section \<open>The intake and question routes\<close>

text \<open>
  A request as the handlers see it: the property \<open>req.sessionId\<close> (set by middleware
  only), the parsed body (under the caller's control, as is the route parameter), the
  file part of a multipart body, and \<open>req.file\<close> as the upload middleware leaves it.
\<close>

record upload_part =
  part_originalname :: string
  part_mimetype :: string
  part_data :: content

record multer_file =
  mf_originalname :: string
  mf_mimetype :: string
  mf_path :: string

record request =
  req_sessionId :: "string option"
  req_body :: jsval
  req_params_sessionId :: string
  req_part :: "upload_part option"
  req_file :: "multer_file option"

text \<open>
  A handler answers with a status and a JSON body, hands an error to \<open>next\<close>, or never
  answers because the promise it awaits never settles.
\<close>

datatype response = Respond nat jsval | Next error | NoResponse error







text \<open>\<open>UploadService.askQuestion\<close>, the handler of \<open>POST /upload/ask/:sessionId\<close>.\<close>

definition UploadService_askQuestion :: "world \<Rightarrow> request \<Rightarrow> axios_result \<Rightarrow> response \<times> world" where
  "UploadService_askQuestion w req reply =
     (case get_prop (req_body req) ''question'' of
        Inl e \<Rightarrow> (Next e, w)
      | Inr question \<Rightarrow>
          (let sessionId = req_params_sessionId req
           in if sessionId = [] \<or> \<not> js_truthy question then
                (Next (AppError (JStr ''Missing sessionId or question'') 400), w)
              else
                (let filePath = path_join [''uploads'', sessionId]
                 in if \<not> existsSync w filePath then
                      (Respond 400 (JObj [(''message'', JStr ''Session Folder Not Found'')]), w)
                    else
                      (case askQuestion w sessionId question reply of
                         (Inl e, w1) \<Rightarrow> (Next e, w1)
                       | (Inr messages, w1) \<Rightarrow>
                           (Respond 200 (JObj [(''messages'', JArr messages)]), w1)))))"

text \<open>
  Requests that overlap. Node runs one piece of a request at a time, and an ask gives
  way at its \<open>await\<close>: between the arrival of an ask and the settling of its post any
  other ask may arrive or settle. \<open>AskArrives\<close> runs an ask up to its \<open>await\<close> and keeps
  what it holds in the list of suspended asks; \<open>PostSettles i\<close> resumes the suspended
  ask at position \<open>i\<close> with the reply of the remote service.
\<close>

datatype ask_event = AskArrives string jsval | PostSettles nat axios_result

fun ask_events :: "world \<Rightarrow> pending_ask list \<Rightarrow> ask_event list \<Rightarrow> world \<times> pending_ask list" where
  "ask_events w ps [] = (w, ps)"
| "ask_events w ps (AskArrives sessionId question # es) =
     (case ask_begin w sessionId question of
        (Inl e, w1) \<Rightarrow> ask_events w1 ps es
      | (Inr pending, w1) \<Rightarrow> ask_events w1 (ps @ [pending]) es)"
| "ask_events w ps (PostSettles i reply # es) =
     (if i < length ps
      then ask_events (snd (ask_end w (ps ! i) reply)) (take i ps @ drop (Suc i) ps) es
      else ask_events w ps es)"

text \<open>Asks on one session that do not overlap: each one settles before the next arrives.\<close>

definition in_turn :: "string \<Rightarrow> (jsval \<times> axios_result) list \<Rightarrow> ask_event list" where
  "in_turn sessionId qrs =
     concat (map (\<lambda>qr. [AskArrives sessionId (fst qr), PostSettles 0 (snd qr)]) qrs)"

text \<open>The log a session has persisted: what the next ask would load.\<close>

definition persisted_log :: "world \<Rightarrow> string \<Rightarrow> error + jsval list" where
  "persisted_log w sessionId =
     load_messages w (path_join [path_join [''uploads'', sessionId], ''chat.json''])"

section \<open>A concrete deployment\<close>

text \<open>
  The server runs in \<open>/app\<close>; the session \<open>s1\<close> holds an uploaded document, a second
  document waits in \<open>/app/incoming\<close>, and \<open>/app/outside\<close> is a directory beside
  the upload area.
\<close>

definition demo_files :: fs where
  "demo_files =
     [[''app''] \<mapsto> Dir,
      [''app'', ''uploads''] \<mapsto> Dir,
      [''app'', ''uploads'', ''s1''] \<mapsto> Dir,
      [''app'', ''uploads'', ''s1'', ''doc.pdf''] \<mapsto> File (Text ''%PDF-1.7''),
      [''app'', ''incoming''] \<mapsto> Dir,
      [''app'', ''incoming'', ''doc.pdf''] \<mapsto> File (Text ''%PDF-1.7''),
      [''app'', ''outside''] \<mapsto> Dir]"

definition demo_world :: world where
  "demo_world = \<lparr>cwd = ''/app'', files = demo_files, calls = []\<rparr>"




definition timed_out :: axios_error where
  "timed_out = \<lparr>err_code = Some ''ECONNABORTED'', err_response = None,
                 err_message = ''timeout of 600000ms exceeded''\<rparr>"

definition refused :: axios_error where
  "refused = \<lparr>err_code = Some ''ECONNREFUSED'', err_response = None,
               err_message = ''connect ECONNREFUSED 127.0.0.1:8000''\<rparr>"

definition rejected_422 :: axios_error where
  "rejected_422 = \<lparr>err_code = Some ''ERR_BAD_REQUEST'',
                    err_response = Some (422, JObj [(''detail'', JStr ''Only PDF files are supported'')]),
                    err_message = ''Request failed with status code 422''\<rparr>"

definition demo_request :: request where
  "demo_request =
     \<lparr>req_sessionId = None,
      req_body = JObj [(''sessionId'', JStr ''s1'')],
      req_params_sessionId = [],
      req_part = Some \<lparr>part_originalname = ''new.pdf'', part_mimetype = ''application/pdf'',
                       part_data = Text ''%PDF-1.4''\<rparr>,
      req_file = None\<rparr>"


text \<open>
  The same deployment later on: the session \<open>s1\<close> has a conversation of two turns, and
  an earlier upload has left a session whose identifier is a version 4 UUID.
\<close>

definition earlier_session :: string where
  "earlier_session = ''3b241101-e2bb-4255-8caf-4136c566a962''"

definition busy_files :: fs where
  "busy_files =
     demo_files
       ([''app'', ''uploads'', ''s1'', ''chat.json''] \<mapsto>
          File (JsonDoc (JArr [JObj [(''role'', JStr ''user''), (''content'', JStr ''Who signed?'')],
                               JObj [(''role'', JStr ''assistant''), (''content'', JStr ''Two parties.''),
                                     (''sources'', JArr [])]])),
        [''app'', ''uploads'', earlier_session] \<mapsto> Dir,
        [''app'', ''uploads'', earlier_session, ''old.pdf''] \<mapsto> File (Text ''%PDF-1.3''))"

definition busy_world :: world where
  "busy_world = \<lparr>cwd = ''/app'', files = busy_files, calls = []\<rparr>"

section \<open>Facts about paths\<close>

lemma split_sep_not_Nil: "split_sep p \<noteq> []"
  by (induction p) (auto split: list.splits)










section \<open>Facts about the file store\<close>

lemma walk_lexical: "walk f cur segs = Some k \<Longrightarrow> k = foldl (norm_step False) cur segs"
  by (induction segs arbitrary: cur) (auto split: if_splits)



lemma walk_upd:
  assumes "node_at f k \<noteq> Some Dir"
  shows "walk f cur segs = Some r \<Longrightarrow> walk (f(k \<mapsto> x)) cur segs = Some r"
proof (induction segs arbitrary: cur)
  case Nil
  then show ?case by simp
next
  case (Cons seg segs)
  then have d: "node_at f cur = Some Dir" and w: "walk f (norm_step False cur seg) segs = Some r"
    by (auto split: if_splits)
  from d assms have "cur \<noteq> k" by auto
  with d have n: "node_at (f(k \<mapsto> x)) cur = Some Dir" by (auto simp: node_at_def)
  have w': "walk (f(k \<mapsto> x)) (norm_step False cur seg) segs = Some r"
    by (rule Cons.IH[OF w])
  show ?case by (simp only: walk.simps n w' refl if_True)
qed

lemma mkwalk_keeps:
  "mkwalk f cur segs = Inr f' \<Longrightarrow> f p = Some n \<Longrightarrow> f' p = Some n"
proof (induction segs arbitrary: f cur)
  case Nil
  then show ?case by simp
next
  case (Cons seg segs)
  let ?nxt = "norm_step False cur seg"
  from Cons.prems(1) have d: "node_at f cur = Some Dir"
    by (auto split: option.splits node.splits)
  show ?case
  proof (cases "node_at f ?nxt")
    case None
    then have "f ?nxt = None" by (simp add: node_at_def split: if_splits)
    with Cons.prems have ne: "p \<noteq> ?nxt" by auto
    from Cons.prems(1) d None have m: "mkwalk (f(?nxt \<mapsto> Dir)) ?nxt segs = Inr f'" by simp
    from ne Cons.prems(2) have "(f(?nxt \<mapsto> Dir)) p = Some n" by simp
    from Cons.IH[OF m this] show ?thesis .
  next
    case (Some nd)
    with Cons.prems(1) d have "nd = Dir" and m: "mkwalk f ?nxt segs = Inr f'"
      by (cases nd; simp)+
    from Cons.IH[OF m Cons.prems(2)] show ?thesis .
  qed
qed

lemma mkwalk_only_dirs:
  "mkwalk f cur segs = Inr f' \<Longrightarrow> f' p = Some (File c) \<Longrightarrow> f p = Some (File c)"
proof (induction segs arbitrary: f cur)
  case Nil
  then show ?case by simp
next
  case (Cons seg segs)
  let ?nxt = "norm_step False cur seg"
  from Cons.prems(1) have d: "node_at f cur = Some Dir"
    by (auto split: option.splits node.splits)
  show ?case
  proof (cases "node_at f ?nxt")
    case None
    from Cons.prems(1) d None have m: "mkwalk (f(?nxt \<mapsto> Dir)) ?nxt segs = Inr f'" by simp
    from Cons.IH[OF m Cons.prems(2)] show ?thesis by (simp split: if_splits)
  next
    case (Some nd)
    with Cons.prems(1) d have "nd = Dir" and m: "mkwalk f ?nxt segs = Inr f'"
      by (cases nd; simp)+
    from Cons.IH[OF m Cons.prems(2)] show ?thesis .
  qed
qed

lemma mkwalk_dirs_stay:
  assumes "mkwalk f cur segs = Inr f'" and "node_at f p = Some Dir"
  shows "node_at f' p = Some Dir"
proof (cases "p = []")
  case True
  then show ?thesis by (simp add: node_at_def)
next
  case False
  with assms(2) have "f p = Some Dir" by (simp add: node_at_def)
  from mkwalk_keeps[OF assms(1) this] False show ?thesis by (simp add: node_at_def)
qed

lemma mkwalk_start:
  assumes "mkwalk g cur segs = Inr f" and "segs \<noteq> []"
  shows "node_at g cur = Some Dir"
proof -
  from assms(2) obtain seg rest where "segs = seg # rest" by (cases segs) auto
  with assms(1) have m: "mkwalk g cur (seg # rest) = Inr f" by simp
  show ?thesis
  proof (cases "node_at g cur")
    case None
    with m show ?thesis by simp
  next
    case (Some nd)
    with m show ?thesis by (cases nd) simp_all
  qed
qed

lemma mkwalk_reaches:
  "mkwalk f cur segs = Inr f' \<Longrightarrow> node_at f cur = Some Dir \<Longrightarrow>
     \<exists>k. walk f' cur segs = Some k \<and> node_at f' k = Some Dir"
proof (induction segs arbitrary: f cur)
  case Nil
  then show ?case by simp
next
  case (Cons seg segs)
  let ?nxt = "norm_step False cur seg"
  have c': "node_at f' cur = Some Dir"
    by (rule mkwalk_dirs_stay[OF Cons.prems])
  show ?case
  proof (cases "node_at f ?nxt")
    case None
    from Cons.prems None have m: "mkwalk (f(?nxt \<mapsto> Dir)) ?nxt segs = Inr f'" by simp
    have "node_at (f(?nxt \<mapsto> Dir)) ?nxt = Some Dir" by (simp add: node_at_def)
    from Cons.IH[OF m this] c' show ?thesis by simp
  next
    case (Some nd)
    with Cons.prems have nd: "nd = Dir" and m: "mkwalk f ?nxt segs = Inr f'"
      by (cases nd; simp)+
    from Some nd have "node_at f ?nxt = Some Dir" by simp
    from Cons.IH[OF m this] c' show ?thesis by simp
  qed
qed

text \<open>
  The step shared by scan, summarize and the upload middleware: create the session folder
  unless it exists. It creates directories only and leaves every existing entry alone.
\<close>

lemma ensure_cases:
  assumes "(if \<not> existsSync w d then mkdirSync w d else Inr w) = Inr w1"
  obtains (there) "existsSync w d" and "w1 = w"
    | (made) f where "\<not> existsSync w d" and "d \<noteq> []"
        and "mkwalk (files w) (start_of w d) (split_sep d) = Inr f" and "w1 = w\<lparr>files := f\<rparr>"
proof (cases "existsSync w d")
  case True
  with assms have "w1 = w" by simp
  with True show thesis by (rule there)
next
  case False
  with assms have m: "mkdirSync w d = Inr w1" by simp
  then have ne: "d \<noteq> []" by (auto simp: mkdirSync_def)
  show thesis
  proof (cases "mkwalk (files w) (start_of w d) (split_sep d)")
    case (Inl e)
    with m ne show thesis by (simp add: mkdirSync_def)
  next
    case (Inr f)
    with m ne have "w1 = w\<lparr>files := f\<rparr>" by (simp add: mkdirSync_def)
    with False ne Inr show thesis by (rule made)
  qed
qed

lemma ensure_effect:
  assumes "(if \<not> existsSync w d then mkdirSync w d else Inr w) = Inr w1"
  shows "cwd w1 = cwd w" and "calls w1 = calls w"
    and "\<And>p n. files w p = Some n \<Longrightarrow> files w1 p = Some n"
    and "\<And>p c. files w1 p = Some (File c) \<Longrightarrow> files w p = Some (File c)"
    and "existsSync w1 d"
proof -
  show "cwd w1 = cwd w"
    by (rule ensure_cases[OF assms]) simp_all
  show "calls w1 = calls w"
    by (rule ensure_cases[OF assms]) simp_all
  show "files w1 p = Some n" if h: "files w p = Some n" for p n
  proof (rule ensure_cases[OF assms])
    assume "w1 = w" with h show ?thesis by simp
  next
    fix f assume m: "mkwalk (files w) (start_of w d) (split_sep d) = Inr f"
      and w1: "w1 = w\<lparr>files := f\<rparr>"
    from mkwalk_keeps[OF m h] w1 show ?thesis by simp
  qed
  show "files w p = Some (File c)" if h: "files w1 p = Some (File c)" for p c
  proof (rule ensure_cases[OF assms])
    assume "w1 = w" with h show ?thesis by simp
  next
    fix f assume m: "mkwalk (files w) (start_of w d) (split_sep d) = Inr f"
      and w1: "w1 = w\<lparr>files := f\<rparr>"
    from h w1 have "f p = Some (File c)" by simp
    from mkwalk_only_dirs[OF m this] show ?thesis .
  qed
  show "existsSync w1 d"
  proof (rule ensure_cases[OF assms])
    assume "existsSync w d" and "w1 = w" then show ?thesis by simp
  next
    fix f assume ne: "d \<noteq> []"
      and m: "mkwalk (files w) (start_of w d) (split_sep d) = Inr f"
      and w1: "w1 = w\<lparr>files := f\<rparr>"
    have st: "node_at (files w) (start_of w d) = Some Dir"
      by (rule mkwalk_start[OF m split_sep_not_Nil])
    from mkwalk_reaches[OF m st] obtain k where
      k: "walk f (start_of w d) (split_sep d) = Some k" and kd: "node_at f k = Some Dir"
      by (elim exE conjE)
    have so: "start_of w1 d = start_of w d" using w1 by (simp add: start_of_def)
    have fw: "files w1 = f" using w1 by simp
    have "fs_key w1 d = Some k" using ne k by (simp add: fs_key_def so fw)
    then have "lookup w1 d = Some Dir" using kd by (simp add: lookup_def fw)
    then show ?thesis by (simp add: existsSync_def)
  qed
qed

lemma writeFileSync_effect:
  assumes "writeFileSync w p c = Inr w'"
  shows "cwd w' = cwd w" and "calls w' = calls w"
    and "\<exists>k. fs_key w p = Some k \<and> fs_key w' p = Some k \<and> k \<noteq> []
           \<and> files w' = (files w)(k \<mapsto> File c)"
    and "lookup w' p = Some (File c)"
proof -
  obtain k where k: "fs_key w p = Some k"
    using assms by (cases "fs_key w p") (auto simp: writeFileSync_def)
  have nd: "node_at (files w) k \<noteq> Some Dir"
    using assms k by (auto simp: writeFileSync_def)
  have w': "w' = w\<lparr>files := (files w)(k \<mapsto> File c)\<rparr>"
    using assms k nd
    by (cases "node_at (files w) (butlast k)")
       (auto simp: writeFileSync_def split: node.splits)
  from nd have kne: "k \<noteq> []" by (auto simp: node_at_def)
  show "cwd w' = cwd w" and "calls w' = calls w" using w' by simp_all
  from k have pne: "p \<noteq> []" and wk: "walk (files w) (start_of w p) (split_sep p) = Some k"
    by (auto simp: fs_key_def split: if_splits)
  have "start_of w' p = start_of w p" using w' by (simp add: start_of_def)
  with walk_upd[OF nd wk, of "File c"] pne w'
  have k': "fs_key w' p = Some k" by (simp add: fs_key_def)
  from k k' kne w' show "\<exists>k. fs_key w p = Some k \<and> fs_key w' p = Some k \<and> k \<noteq> []
           \<and> files w' = (files w)(k \<mapsto> File c)" by simp
  from k' kne w' show "lookup w' p = Some (File c)" by (simp add: lookup_def node_at_def)
qed








text \<open>What is read depends on the files and the working directory only.\<close>

lemma same_store:
  assumes "files w' = files w" and "cwd w' = cwd w"
  shows "fs_key w' p = fs_key w p" and "lookup w' p = lookup w p"
    and "existsSync w' p = existsSync w p" and "readFileSync w' p = readFileSync w p"
    and "load_messages w' p = load_messages w p"
proof -
  show k: "fs_key w' p = fs_key w p" using assms by (simp add: fs_key_def start_of_def)
  show l: "lookup w' p = lookup w p" using assms by (simp add: lookup_def k cong: option.case_cong)
  show e: "existsSync w' p = existsSync w p" by (simp add: existsSync_def l)
  show r: "readFileSync w' p = readFileSync w p" by (simp add: readFileSync_def l)
  show "load_messages w' p = load_messages w p" by (simp add: load_messages_def e r)
qed


section \<open>Facts about the JSON round trip\<close>

lemma json_norm_undefined: "json_norm v = JUndefined \<longleftrightarrow> v = JUndefined"
  by (cases v) simp_all

lemma json_norm_idem: "json_norm (json_norm v) = json_norm v"
proof (induction v)
  case (JArr xs)
  then show ?case by (auto simp: json_norm_undefined)
next
  case (JObj kvs)
  have f: "filter (\<lambda>kv. snd kv \<noteq> JUndefined)
             (map (\<lambda>kv. (fst kv, json_norm (snd kv))) (filter (\<lambda>kv. snd kv \<noteq> JUndefined) kvs))
           = map (\<lambda>kv. (fst kv, json_norm (snd kv))) (filter (\<lambda>kv. snd kv \<noteq> JUndefined) kvs)"
    by (induction kvs) (auto simp: json_norm_undefined)
  have m: "map (\<lambda>kv. (fst kv, json_norm (snd kv)))
             (map (\<lambda>kv. (fst kv, json_norm (snd kv))) (filter (\<lambda>kv. snd kv \<noteq> JUndefined) kvs))
           = map (\<lambda>kv. (fst kv, json_norm (snd kv))) (filter (\<lambda>kv. snd kv \<noteq> JUndefined) kvs)"
    using JObj by (auto simp: snds.simps)
  show ?case by (simp only: json_norm.simps f m)
qed simp_all

lemma elem_norm_idem: "elem_norm (elem_norm x) = elem_norm x"
  by (simp add: elem_norm_def json_norm_idem json_norm_undefined)

lemma json_norm_JArr:
  assumes "json_norm v = JArr L"
  shows "map elem_norm L = L"
proof -
  have "json_norm (JArr L) = JArr L" using json_norm_idem[of v] assms by simp
  then show ?thesis by (simp add: elem_norm_def cong: map_cong)
qed

lemma load_messages_normal:
  "load_messages w p = Inr L \<Longrightarrow> map elem_norm L = L"
  by (auto simp: load_messages_def JSON_parse_def dest: json_norm_JArr
      split: if_splits sum.splits content.splits jsval.splits)

section \<open>Conversation: what a failed remote call leaves behind\<close>

lemma ask_remote_Failed: "\<exists>e. ask_remote (Failed err) = Inl e"
  by (simp add: ask_remote_def)

text \<open>
  Claim C3, as the code has it. The user turn is appended to the log in memory before the
  remote call; the log is written to the session folder once, after the assistant turn
  has been appended. When the remote call fails, the ask fails and nothing is written:
  every file is as it was, and so is the persisted log, which does not hold the
  unanswered user turn.
\<close>

theorem ask_failure_writes_nothing:
  "(\<exists>e. fst (askQuestion w sessionId question (Failed err)) = Inl e)
   \<and> files (snd (askQuestion w sessionId question (Failed err))) = files w
   \<and> cwd (snd (askQuestion w sessionId question (Failed err))) = cwd w
   \<and> persisted_log (snd (askQuestion w sessionId question (Failed err))) sessionId
       = persisted_log w sessionId"
proof -
  obtain e where e: "ask_remote (Failed err) = Inl e" using ask_remote_Failed by blast
  have 1: "\<exists>e. fst (askQuestion w sessionId question (Failed err)) = Inl e"
    using e by (simp add: askQuestion_def ask_begin_def ask_end_def Let_def split: sum.splits)
  have 2: "files (snd (askQuestion w sessionId question (Failed err))) = files w"
    using e by (simp add: askQuestion_def ask_begin_def ask_end_def Let_def split: sum.splits)
  have 3: "cwd (snd (askQuestion w sessionId question (Failed err))) = cwd w"
    using e by (simp add: askQuestion_def ask_begin_def ask_end_def Let_def split: sum.splits)
  have 4: "persisted_log (snd (askQuestion w sessionId question (Failed err))) sessionId
       = persisted_log w sessionId"
    by (simp add: persisted_log_def same_store(5)[OF 2 3])
  from 1 2 3 4 show ?thesis by blast
qed

text \<open>
  Claim C3 as stated fails: in the session \<open>s1\<close>, which has no log yet, an ask whose
  remote call is refused fails with status 503 and the persisted log is still empty.
\<close>

theorem ask_failure_counterexample:
  "fst (askQuestion demo_world ''s1'' (JStr ''What is this about?'') (Failed refused))
     = Inl (AppError (JStr ''AI service unavailable'') 503)
   \<and> persisted_log
        (snd (askQuestion demo_world ''s1'' (JStr ''What is this about?'') (Failed refused))) ''s1''
     = Inr []"
  by code_simp

section \<open>Conversation: a session that does not exist\<close>

text \<open>
  Claim C9. An ask for an identifier whose folder under \<open>uploads\<close> does not exist is an
  error and leaves the world as it was: no file is written and no remote call is made.
  With an identifier and a question present the error is "Session Folder Not Found":
  thrown with status 404 by the service, answered with status 400 by the route handler,
  which makes the same test before it calls the service.
\<close>

theorem ask_unknown_session:
  "(\<not> existsSync w (path_join [''uploads'', sessionId]) \<longrightarrow>
      (\<exists>e. fst (askQuestion w sessionId question reply) = Inl e)
      \<and> snd (askQuestion w sessionId question reply) = w)
   \<and> (\<not> existsSync w (path_join [''uploads'', sessionId]) \<and> sessionId \<noteq> [] \<and> js_truthy question \<longrightarrow>
      fst (askQuestion w sessionId question reply)
        = Inl (AppError (JStr ''Session Folder Not Found'') 404))
   \<and> (\<not> existsSync w (path_join [''uploads'', req_params_sessionId req])
       \<and> req_params_sessionId req \<noteq> []
       \<and> get_prop (req_body req) ''question'' = Inr question \<and> js_truthy question \<longrightarrow>
      UploadService_askQuestion w req reply
        = (Respond 400 (JObj [(''message'', JStr ''Session Folder Not Found'')]), w))"
  by (simp add: askQuestion_def UploadService_askQuestion_def ask_begin_def ask_end_def Let_def)

theorem ask_unknown_session_witness:
  "\<not> existsSync demo_world (path_join [''uploads'', ''nosuch''])
   \<and> fst (askQuestion demo_world ''nosuch'' (JStr ''hi'') (Fulfilled (JStr ''yo'')))
        = Inl (AppError (JStr ''Session Folder Not Found'') 404)
   \<and> snd (askQuestion demo_world ''nosuch'' (JStr ''hi'') (Fulfilled (JStr ''yo''))) = demo_world
   \<and> UploadService_askQuestion demo_world
        (demo_request\<lparr>req_params_sessionId := ''nosuch'', req_body := JObj [(''question'', JStr ''hi'')]\<rparr>)
        (Fulfilled (JStr ''yo''))
        = (Respond 400 (JObj [(''message'', JStr ''Session Folder Not Found'')]), demo_world)"
proof -
  have h: "\<not> existsSync demo_world (path_join [''uploads'', ''nosuch''])" by code_simp
  have t: "js_truthy (JStr ''hi'')" by simp
  have g: "get_prop (req_body (demo_request\<lparr>req_params_sessionId := ''nosuch'',
              req_body := JObj [(''question'', JStr ''hi'')]\<rparr>)) ''question'' = Inr (JStr ''hi'')"
    by simp
  show ?thesis
    using h t g ask_unknown_session [of demo_world "''nosuch''" "JStr ''hi''" "Fulfilled (JStr ''yo'')"
        "demo_request\<lparr>req_params_sessionId := ''nosuch'', req_body := JObj [(''question'', JStr ''hi'')]\<rparr>"]
    by simp
qed

section \<open>Summarizer: failures\<close>

lemma summarize_invalid:
  assumes "sessionId = [] \<or> filePath = [] \<or> \<not> existsSync w filePath \<or> isDirectory w filePath"
  shows "snd (summarize w sessionId filePath reply) = w"
    and "\<exists>e. fst (summarize w sessionId filePath reply) = Inl e"
  using assms by (auto simp: summarize_def)

lemma summarize_no_folder:
  assumes "\<not> (sessionId = [] \<or> filePath = [] \<or> \<not> existsSync w filePath \<or> isDirectory w filePath)"
    and "(if \<not> existsSync w (path_join [''uploads'', sessionId])
          then mkdirSync w (path_join [''uploads'', sessionId]) else Inr w) = Inl e"
  shows "summarize w sessionId filePath reply = (Inl e, w)"
  using assms by (simp add: summarize_def Let_def)

text \<open>The part of \<open>summarize\<close> after the session folder has been ensured.\<close>

lemma summarize_posting:
  assumes "\<not> (sessionId = [] \<or> filePath = [] \<or> \<not> existsSync w filePath \<or> isDirectory w filePath)"
    and "(if \<not> existsSync w (path_join [''uploads'', sessionId])
          then mkdirSync w (path_join [''uploads'', sessionId]) else Inr w) = Inr w1"
  shows "summarize w sessionId filePath (Failed err)
           = (Inl (summarize_catch err), w1\<lparr>calls := calls w1 @ [PostSummarize sessionId filePath]\<rparr>)"
    and "get_prop data ''summary'' = Inl e \<Longrightarrow>
         summarize w sessionId filePath (Fulfilled data)
           = (Inl (summarize_catch (as_caught e)),
              w1\<lparr>calls := calls w1 @ [PostSummarize sessionId filePath]\<rparr>)"
    and "get_prop data ''summary'' = Inr v \<Longrightarrow> \<forall>s. v \<noteq> JStr s \<Longrightarrow>
         summarize w sessionId filePath (Fulfilled data)
           = (Inl (summarize_catch (as_caught (TypeError ''The data argument must be of type string''))),
              w1\<lparr>calls := calls w1 @ [PostSummarize sessionId filePath]\<rparr>)"
    and "get_prop data ''summary'' = Inr (JStr s) \<Longrightarrow>
         summarize w sessionId filePath (Fulfilled data)
           = (case writeFileSync (w1\<lparr>calls := calls w1 @ [PostSummarize sessionId filePath]\<rparr>)
                     (path_join [path_join [''uploads'', sessionId], ''summary.txt'']) (Text s) of
                Inl e \<Rightarrow> (Inl (summarize_catch (as_caught e)),
                          w1\<lparr>calls := calls w1 @ [PostSummarize sessionId filePath]\<rparr>)
              | Inr w3 \<Rightarrow> (Inr s, w3))"
proof -
  show "summarize w sessionId filePath (Failed err)
           = (Inl (summarize_catch err), w1\<lparr>calls := calls w1 @ [PostSummarize sessionId filePath]\<rparr>)"
    using assms by (simp add: summarize_def Let_def)
  show "get_prop data ''summary'' = Inl e \<Longrightarrow>
         summarize w sessionId filePath (Fulfilled data)
           = (Inl (summarize_catch (as_caught e)),
              w1\<lparr>calls := calls w1 @ [PostSummarize sessionId filePath]\<rparr>)"
    using assms by (simp add: summarize_def Let_def)
  show "get_prop data ''summary'' = Inr v \<Longrightarrow> \<forall>s. v \<noteq> JStr s \<Longrightarrow>
         summarize w sessionId filePath (Fulfilled data)
           = (Inl (summarize_catch (as_caught (TypeError ''The data argument must be of type string''))),
              w1\<lparr>calls := calls w1 @ [PostSummarize sessionId filePath]\<rparr>)"
    using assms by (cases v) (simp_all add: summarize_def Let_def)
  show "get_prop data ''summary'' = Inr (JStr s) \<Longrightarrow>
         summarize w sessionId filePath (Fulfilled data)
           = (case writeFileSync (w1\<lparr>calls := calls w1 @ [PostSummarize sessionId filePath]\<rparr>)
                     (path_join [path_join [''uploads'', sessionId], ''summary.txt'']) (Text s) of
                Inl e \<Rightarrow> (Inl (summarize_catch (as_caught e)),
                          w1\<lparr>calls := calls w1 @ [PostSummarize sessionId filePath]\<rparr>)
              | Inr w3 \<Rightarrow> (Inr s, w3))"
    using assms by (simp add: summarize_def Let_def)
qed

lemma summarize_failure_files:
  assumes "fst (summarize w sessionId filePath reply) = Inl e"
  shows "(\<forall>p n. files w p = Some n \<longrightarrow> files (snd (summarize w sessionId filePath reply)) p = Some n)
       \<and> (\<forall>p c. files (snd (summarize w sessionId filePath reply)) p = Some (File c)
              \<longrightarrow> files w p = Some (File c))"
proof (cases "sessionId = [] \<or> filePath = [] \<or> \<not> existsSync w filePath \<or> isDirectory w filePath")
  case True
  from summarize_invalid(1)[OF True] show ?thesis by simp
next
  case False
  show ?thesis
  proof (cases "if \<not> existsSync w (path_join [''uploads'', sessionId])
          then mkdirSync w (path_join [''uploads'', sessionId]) else Inr w")
    case (Inl e')
    from summarize_no_folder[OF False Inl] show ?thesis by simp
  next
    case (Inr w1)
    note P = summarize_posting[OF False Inr]
    have "files (snd (summarize w sessionId filePath reply)) = files w1"
    proof (cases reply)
      case (Failed err)
      with P(1) show ?thesis by simp
    next
      case (Fulfilled data)
      show ?thesis
      proof (cases "get_prop data ''summary''")
        case (Inl e2)
        from P(2)[OF this] Fulfilled show ?thesis by simp
      next
        case (Inr v)
        show ?thesis
        proof (cases "\<exists>s. v = JStr s")
          case False
          with P(3)[OF Inr] Fulfilled show ?thesis by simp
        next
          case True
          then obtain s where "v = JStr s" by blast
          with Inr P(4)[of data s] Fulfilled assms show ?thesis
            by (simp split: sum.splits)
        qed
      qed
    qed
    then have F: "files (snd (summarize w sessionId filePath reply)) = files w1" .
    show ?thesis
      unfolding F
    proof (intro conjI allI impI)
      fix p n assume "files w p = Some n"
      then show "files w1 p = Some n" by (rule ensure_effect(3)[OF Inr])
    next
      fix p c assume "files w1 p = Some (File c)"
      then show "files w p = Some (File c)" by (rule ensure_effect(4)[OF Inr])
    qed
  qed
qed

lemma summarize_posted:
  assumes "calls (snd (summarize w sessionId filePath (Failed err))) \<noteq> calls w"
  shows "fst (summarize w sessionId filePath (Failed err)) = Inl (summarize_catch err)"
proof -
  have ok: "\<not> (sessionId = [] \<or> filePath = [] \<or> \<not> existsSync w filePath \<or> isDirectory w filePath)"
  proof
    assume "sessionId = [] \<or> filePath = [] \<or> \<not> existsSync w filePath \<or> isDirectory w filePath"
    from summarize_invalid(1)[OF this] assms show False by simp
  qed
  show ?thesis
  proof (cases "if \<not> existsSync w (path_join [''uploads'', sessionId])
          then mkdirSync w (path_join [''uploads'', sessionId]) else Inr w")
    case (Inl e')
    from summarize_no_folder[OF ok Inl] assms show ?thesis by simp
  next
    case (Inr w1)
    from summarize_posting(1)[OF ok Inr] show ?thesis by simp
  qed
qed

lemma summarize_Failed_fails: "\<exists>e. fst (summarize w sessionId filePath (Failed err)) = Inl e"
proof (cases "sessionId = [] \<or> filePath = [] \<or> \<not> existsSync w filePath \<or> isDirectory w filePath")
  case True
  from summarize_invalid(2)[OF True] show ?thesis .
next
  case False
  show ?thesis
  proof (cases "if \<not> existsSync w (path_join [''uploads'', sessionId])
          then mkdirSync w (path_join [''uploads'', sessionId]) else Inr w")
    case (Inl e')
    from summarize_no_folder[OF False Inl] show ?thesis by simp
  next
    case (Inr w1)
    from summarize_posting(1)[OF False Inr] show ?thesis by simp
  qed
qed

text \<open>
  Claim C4. A rejected post makes \<open>summarize\<close> fail. Once the post has been attempted, an
  error with code \<open>ECONNABORTED\<close> (the timeout) becomes the status 504, a refused
  connection the status 503, and an error response of the collaborator is passed on with
  its status and its \<open>detail\<close> as the message. Whenever \<open>summarize\<close> fails, for whatever
  reply, every entry of the file store is as it was (so the uploaded file is untouched)
  and every regular file there was there before with the same content: no summary
  artifact, partial or otherwise, has been written.
\<close>

theorem summarize_failure:
  "(\<exists>e. fst (summarize w sessionId filePath (Failed err)) = Inl e)
   \<and> (calls (snd (summarize w sessionId filePath (Failed err))) \<noteq> calls w \<longrightarrow>
        (err_code err = Some ''ECONNABORTED'' \<longrightarrow>
           fst (summarize w sessionId filePath (Failed err))
             = Inl (AppError (JStr ''AI service took too long to respond. Please try a smaller file.'') 504))
      \<and> (err_code err = Some ''ECONNREFUSED'' \<and> err_response err = None \<longrightarrow>
           fst (summarize w sessionId filePath (Failed err))
             = Inl (AppError (JStr ''AI service unavailable. Make sure Python server is running on port 8000.'') 503))
      \<and> (\<forall>status data detail.
           err_code err \<noteq> Some ''ECONNABORTED'' \<and> err_response err = Some (status, data)
           \<and> get_prop data ''detail'' = Inr detail \<and> js_truthy detail \<longrightarrow>
           fst (summarize w sessionId filePath (Failed err)) = Inl (AppError detail status)))
   \<and> (\<forall>e. fst (summarize w sessionId filePath reply) = Inl e \<longrightarrow>
        (\<forall>p n. files w p = Some n \<longrightarrow> files (snd (summarize w sessionId filePath reply)) p = Some n)
      \<and> (\<forall>p c. files (snd (summarize w sessionId filePath reply)) p = Some (File c)
              \<longrightarrow> files w p = Some (File c)))"
proof -
  have 1: "\<exists>e. fst (summarize w sessionId filePath (Failed err)) = Inl e"
    by (rule summarize_Failed_fails)
  have 2: "calls (snd (summarize w sessionId filePath (Failed err))) \<noteq> calls w \<longrightarrow>
        (err_code err = Some ''ECONNABORTED'' \<longrightarrow>
           fst (summarize w sessionId filePath (Failed err))
             = Inl (AppError (JStr ''AI service took too long to respond. Please try a smaller file.'') 504))
      \<and> (err_code err = Some ''ECONNREFUSED'' \<and> err_response err = None \<longrightarrow>
           fst (summarize w sessionId filePath (Failed err))
             = Inl (AppError (JStr ''AI service unavailable. Make sure Python server is running on port 8000.'') 503))
      \<and> (\<forall>status data detail.
           err_code err \<noteq> Some ''ECONNABORTED'' \<and> err_response err = Some (status, data)
           \<and> get_prop data ''detail'' = Inr detail \<and> js_truthy detail \<longrightarrow>
           fst (summarize w sessionId filePath (Failed err)) = Inl (AppError detail status))"
  proof
    assume "calls (snd (summarize w sessionId filePath (Failed err))) \<noteq> calls w"
    from summarize_posted[OF this]
    show "(err_code err = Some ''ECONNABORTED'' \<longrightarrow>
           fst (summarize w sessionId filePath (Failed err))
             = Inl (AppError (JStr ''AI service took too long to respond. Please try a smaller file.'') 504))
      \<and> (err_code err = Some ''ECONNREFUSED'' \<and> err_response err = None \<longrightarrow>
           fst (summarize w sessionId filePath (Failed err))
             = Inl (AppError (JStr ''AI service unavailable. Make sure Python server is running on port 8000.'') 503))
      \<and> (\<forall>status data detail.
           err_code err \<noteq> Some ''ECONNABORTED'' \<and> err_response err = Some (status, data)
           \<and> get_prop data ''detail'' = Inr detail \<and> js_truthy detail \<longrightarrow>
           fst (summarize w sessionId filePath (Failed err)) = Inl (AppError detail status))"
      by (simp add: summarize_catch_def js_or_def)
  qed
  have 3: "\<forall>e. fst (summarize w sessionId filePath reply) = Inl e \<longrightarrow>
        (\<forall>p n. files w p = Some n \<longrightarrow> files (snd (summarize w sessionId filePath reply)) p = Some n)
      \<and> (\<forall>p c. files (snd (summarize w sessionId filePath reply)) p = Some (File c)
              \<longrightarrow> files w p = Some (File c))"
    using summarize_failure_files by blast
  from 1 2 3 show ?thesis by blast
qed

theorem summarize_failure_witness:
  "fst (summarize demo_world ''s2'' ''incoming/doc.pdf'' (Failed timed_out))
     = Inl (AppError (JStr ''AI service took too long to respond. Please try a smaller file.'') 504)
   \<and> fst (summarize demo_world ''s2'' ''incoming/doc.pdf'' (Failed refused))
     = Inl (AppError (JStr ''AI service unavailable. Make sure Python server is running on port 8000.'') 503)
   \<and> fst (summarize demo_world ''s2'' ''incoming/doc.pdf'' (Failed rejected_422))
     = Inl (AppError (JStr ''Only PDF files are supported'') 422)
   \<and> files (snd (summarize demo_world ''s2'' ''incoming/doc.pdf'' (Failed timed_out)))
         [''app'', ''incoming'', ''doc.pdf'']
     = Some (File (Text ''%PDF-1.7''))
   \<and> files (snd (summarize demo_world ''s2'' ''incoming/doc.pdf'' (Failed timed_out)))
         [''app'', ''uploads'', ''s2'', ''summary.txt'']
     \<noteq> Some (File (Text ''partial''))"
proof -
  have posted: "calls (snd (summarize demo_world ''s2'' ''incoming/doc.pdf'' (Failed err))) \<noteq> calls demo_world"
    for err by code_simp
  have c1: "err_code timed_out = Some ''ECONNABORTED''" by (simp add: timed_out_def)
  have c2: "err_code refused = Some ''ECONNREFUSED'' \<and> err_response refused = None"
    by (simp add: refused_def)
  have c3: "err_code rejected_422 \<noteq> Some ''ECONNABORTED''
      \<and> err_response rejected_422 = Some (422, JObj [(''detail'', JStr ''Only PDF files are supported'')])
      \<and> get_prop (JObj [(''detail'', JStr ''Only PDF files are supported'')]) ''detail''
          = Inr (JStr ''Only PDF files are supported'')
      \<and> js_truthy (JStr ''Only PDF files are supported'')"
    by (simp add: rejected_422_def)
  have f1: "files demo_world [''app'', ''incoming'', ''doc.pdf''] = Some (File (Text ''%PDF-1.7''))"
    by code_simp
  have f2: "files demo_world [''app'', ''uploads'', ''s2'', ''summary.txt''] \<noteq> Some (File (Text ''partial''))"
    by code_simp
  note T1 = summarize_failure [of demo_world "''s2''" "''incoming/doc.pdf''" timed_out "Failed timed_out"]
  note T2 = summarize_failure [of demo_world "''s2''" "''incoming/doc.pdf''" refused "Failed refused"]
  note T3 = summarize_failure [of demo_world "''s2''" "''incoming/doc.pdf''" rejected_422 "Failed rejected_422"]
  have a: "fst (summarize demo_world ''s2'' ''incoming/doc.pdf'' (Failed timed_out))
     = Inl (AppError (JStr ''AI service took too long to respond. Please try a smaller file.'') 504)"
    using T1 posted c1 by blast
  have b: "fst (summarize demo_world ''s2'' ''incoming/doc.pdf'' (Failed refused))
     = Inl (AppError (JStr ''AI service unavailable. Make sure Python server is running on port 8000.'') 503)"
    using T2 posted c2 by blast
  have c: "fst (summarize demo_world ''s2'' ''incoming/doc.pdf'' (Failed rejected_422))
     = Inl (AppError (JStr ''Only PDF files are supported'') 422)"
    using T3 posted c3 by blast
  have d: "files (snd (summarize demo_world ''s2'' ''incoming/doc.pdf'' (Failed timed_out)))
         [''app'', ''incoming'', ''doc.pdf''] = Some (File (Text ''%PDF-1.7''))"
    using T1 a f1 by blast
  have e: "files (snd (summarize demo_world ''s2'' ''incoming/doc.pdf'' (Failed timed_out)))
         [''app'', ''uploads'', ''s2'', ''summary.txt''] \<noteq> Some (File (Text ''partial''))"
    using T1 a f2 by blast
  from a b c d e show ?thesis by blast
qed

section \<open>Conversation: a successful ask\<close>

text \<open>
  Claim C6. When an ask succeeds on a fulfilled post, the returned log is the loaded log
  followed by exactly two turns: a turn with role \<open>user\<close> whose content is the question,
  then a turn with role \<open>assistant\<close> whose content is the response itself when that is
  a string and its \<open>answer\<close> property when it is an object, with the response's
  \<open>sources\<close>, or an empty list where the response has none. The loaded log is empty
  where there is no chat file (so the result has exactly two turns), and is the array the
  chat file holds otherwise. Afterwards the chat file holds exactly the returned log.
\<close>

theorem ask_success:
  assumes "askQuestion w sessionId question (Fulfilled aiData) = (Inr messages, w')"
  shows "\<exists>loaded answer sources.
           messages = loaded @ [JObj [(''role'', JStr ''user''), (''content'', question)],
                                JObj [(''role'', JStr ''assistant''), (''content'', answer),
                                      (''sources'', sources)]]
         \<and> (lookup w (path_join [path_join [''uploads'', sessionId], ''chat.json'']) = None
               \<longrightarrow> loaded = [])
         \<and> (\<forall>xs. lookup w (path_join [path_join [''uploads'', sessionId], ''chat.json''])
                     = Some (File (JsonDoc (JArr xs)))
               \<longrightarrow> loaded = map (\<lambda>x. if x = JUndefined then JNull else json_norm x) xs)
         \<and> (\<forall>v. lookup w (path_join [path_join [''uploads'', sessionId], ''chat.json''])
                     = Some (File (JsonDoc v)) \<and> (\<nexists>xs. v = JArr xs)
               \<longrightarrow> loaded = [])
         \<and> (\<forall>s. aiData = JStr s \<longrightarrow> answer = JStr s \<and> sources = JArr [])
         \<and> (\<forall>kvs. aiData = JObj kvs \<longrightarrow>
               answer = (case map_of kvs ''answer'' of None \<Rightarrow> JUndefined | Some v \<Rightarrow> v)
             \<and> sources = (case map_of kvs ''sources'' of
                            None \<Rightarrow> JArr []
                          | Some v \<Rightarrow> if v = JUndefined \<or> v = JNull then JArr [] else v))
         \<and> ((\<nexists>s. aiData = JStr s) \<and> (\<nexists>kvs. aiData = JObj kvs) \<longrightarrow>
               answer = JUndefined \<and> sources = JArr [])
         \<and> lookup w' (path_join [path_join [''uploads'', sessionId], ''chat.json''])
             = Some (File (JsonDoc (JArr messages)))"
proof -
  let ?cf = "path_join [path_join [''uploads'', sessionId], ''chat.json'']"
  obtain res w1 where B: "ask_begin w sessionId question = (res, w1)"
    by (cases "ask_begin w sessionId question")
  from assms B obtain pending where P: "res = Inr pending"
    and E: "ask_end w1 pending (Fulfilled aiData) = (Inr messages, w')"
    by (cases res) (auto simp: askQuestion_def)
  from B P obtain loaded where L: "load_messages w ?cf = Inr loaded"
    and pc: "pa_chatFile pending = ?cf"
    and pm: "pa_messages pending = loaded @ [JObj [(''role'', JStr ''user''), (''content'', question)]]"
    by (cases "load_messages w ?cf")
       (auto simp: ask_begin_def Let_def split: if_splits)
  obtain answer sources where R: "ask_remote (Fulfilled aiData) = Inr (answer, sources)"
    using E by (cases "ask_remote (Fulfilled aiData)") (auto simp: ask_end_def)
  have M: "messages = loaded @ [JObj [(''role'', JStr ''user''), (''content'', question)],
                                JObj [(''role'', JStr ''assistant''), (''content'', answer),
                                      (''sources'', sources)]]"
    and W: "writeFileSync w1 ?cf (JSON_stringify (JArr messages)) = Inr w'"
    using E R pc pm by (auto simp: ask_end_def Let_def split: sum.splits)
  have l0: "lookup w ?cf = None \<longrightarrow> loaded = []"
    using L by (auto simp: load_messages_def existsSync_def)
  have l1: "\<forall>xs. lookup w ?cf = Some (File (JsonDoc (JArr xs)))
               \<longrightarrow> loaded = map (\<lambda>x. if x = JUndefined then JNull else json_norm x) xs"
    using L by (auto simp: load_messages_def existsSync_def readFileSync_def JSON_parse_def)
  have l2: "\<forall>v. lookup w ?cf = Some (File (JsonDoc v)) \<and> (\<nexists>xs. v = JArr xs) \<longrightarrow> loaded = []"
  proof (intro allI impI)
    fix v assume h: "lookup w ?cf = Some (File (JsonDoc v)) \<and> (\<nexists>xs. v = JArr xs)"
    then have "\<nexists>xs. json_norm v = JArr xs" by (cases v) auto
    with h L show "loaded = []"
      by (auto simp: load_messages_def existsSync_def readFileSync_def JSON_parse_def
          split: jsval.splits)
  qed
  have a1: "\<forall>s. aiData = JStr s \<longrightarrow> answer = JStr s \<and> sources = JArr []"
    using R by (auto simp: ask_remote_def get_prop_opt_def js_nullish_def)
  have a2: "\<forall>kvs. aiData = JObj kvs \<longrightarrow>
               answer = (case map_of kvs ''answer'' of None \<Rightarrow> JUndefined | Some v \<Rightarrow> v)
             \<and> sources = (case map_of kvs ''sources'' of
                            None \<Rightarrow> JArr []
                          | Some v \<Rightarrow> if v = JUndefined \<or> v = JNull then JArr [] else v)"
    using R by (auto simp: ask_remote_def get_prop_opt_def js_nullish_def split: option.splits)
  have a3: "(\<nexists>s. aiData = JStr s) \<and> (\<nexists>kvs. aiData = JObj kvs) \<longrightarrow>
               answer = JUndefined \<and> sources = JArr []"
    using R by (cases aiData) (auto simp: ask_remote_def get_prop_opt_def js_nullish_def)
  have f: "lookup w' ?cf = Some (File (JsonDoc (JArr messages)))"
    using writeFileSync_effect(4)[OF W] by (simp add: JSON_stringify_def)
  show ?thesis
    by (rule exI[of _ loaded], rule exI[of _ answer], rule exI[of _ sources])
       (intro conjI M l0 l1 l2 a1 a2 a3 f)
qed

theorem ask_success_witness:
  "fst (askQuestion busy_world ''s1'' (JStr ''When?'')
          (Fulfilled (JObj [(''answer'', JStr ''In May.''),
                            (''sources'', JArr [JObj [(''source'', JStr ''doc.pdf''), (''page'', JNum 2)]])])))
     = Inr [JObj [(''role'', JStr ''user''), (''content'', JStr ''Who signed?'')],
            JObj [(''role'', JStr ''assistant''), (''content'', JStr ''Two parties.''), (''sources'', JArr [])],
            JObj [(''role'', JStr ''user''), (''content'', JStr ''When?'')],
            JObj [(''role'', JStr ''assistant''), (''content'', JStr ''In May.''),
                  (''sources'', JArr [JObj [(''source'', JStr ''doc.pdf''), (''page'', JNum 2)]])]]
   \<and> lookup (snd (askQuestion busy_world ''s1'' (JStr ''When?'')
          (Fulfilled (JObj [(''answer'', JStr ''In May.''),
                            (''sources'', JArr [JObj [(''source'', JStr ''doc.pdf''), (''page'', JNum 2)]])]))))
        ''uploads/s1/chat.json''
     = Some (File (JsonDoc (JArr
         [JObj [(''role'', JStr ''user''), (''content'', JStr ''Who signed?'')],
          JObj [(''role'', JStr ''assistant''), (''content'', JStr ''Two parties.''), (''sources'', JArr [])],
          JObj [(''role'', JStr ''user''), (''content'', JStr ''When?'')],
          JObj [(''role'', JStr ''assistant''), (''content'', JStr ''In May.''),
                (''sources'', JArr [JObj [(''source'', JStr ''doc.pdf''), (''page'', JNum 2)]])]])))
   \<and> fst (askQuestion demo_world ''s1'' (JStr ''What is this about?'') (Fulfilled (JStr ''A lease.'')))
     = Inr [JObj [(''role'', JStr ''user''), (''content'', JStr ''What is this about?'')],
            JObj [(''role'', JStr ''assistant''), (''content'', JStr ''A lease.''), (''sources'', JArr [])]]"
proof -
  let ?data = "JObj [(''answer'', JStr ''In May.''),
                     (''sources'', JArr [JObj [(''source'', JStr ''doc.pdf''), (''page'', JNum 2)]])]"
  let ?old = "[JObj [(''role'', JStr ''user''), (''content'', JStr ''Who signed?'')],
               JObj [(''role'', JStr ''assistant''), (''content'', JStr ''Two parties.''), (''sources'', JArr [])]]"
  let ?r = "askQuestion busy_world ''s1'' (JStr ''When?'') (Fulfilled ?data)"
  let ?cf = "path_join [path_join [''uploads'', ''s1''], ''chat.json'']"
  have cf: "?cf = ''uploads/s1/chat.json''" by code_simp
  have "\<not> isl (fst ?r)" by code_simp
  then have "fst ?r = Inr (projr (fst ?r))" by simp
  then have h: "?r = (Inr (projr (fst ?r)), snd ?r)" by (metis prod.collapse)
  have old: "lookup busy_world ?cf = Some (File (JsonDoc (JArr ?old)))" by code_simp
  from ask_success [OF h] obtain loaded answer sources where
    m: "projr (fst ?r) = loaded @ [JObj [(''role'', JStr ''user''), (''content'', JStr ''When?'')],
                                JObj [(''role'', JStr ''assistant''), (''content'', answer),
                                      (''sources'', sources)]]"
    and l: "\<forall>xs. lookup busy_world ?cf = Some (File (JsonDoc (JArr xs)))
               \<longrightarrow> loaded = map (\<lambda>x. if x = JUndefined then JNull else json_norm x) xs"
    and a: "\<forall>kvs. ?data = JObj kvs \<longrightarrow>
               answer = (case map_of kvs ''answer'' of None \<Rightarrow> JUndefined | Some v \<Rightarrow> v)
             \<and> sources = (case map_of kvs ''sources'' of
                            None \<Rightarrow> JArr []
                          | Some v \<Rightarrow> if v = JUndefined \<or> v = JNull then JArr [] else v)"
    and f: "lookup (snd ?r) ?cf = Some (File (JsonDoc (JArr (projr (fst ?r)))))"
    by (elim exE conjE)
  from l old have l': "loaded = ?old" by simp
  from a have a': "answer = JStr ''In May.''"
    and s': "sources = JArr [JObj [(''source'', JStr ''doc.pdf''), (''page'', JNum 2)]]"
    by simp_all
  from m l' a' s' have v: "projr (fst ?r) = ?old @ [JObj [(''role'', JStr ''user''), (''content'', JStr ''When?'')],
        JObj [(''role'', JStr ''assistant''), (''content'', JStr ''In May.''),
              (''sources'', JArr [JObj [(''source'', JStr ''doc.pdf''), (''page'', JNum 2)]])]]"
    by simp
  from \<open>fst ?r = Inr (projr (fst ?r))\<close> v have c1: "fst ?r = Inr (?old @
       [JObj [(''role'', JStr ''user''), (''content'', JStr ''When?'')],
        JObj [(''role'', JStr ''assistant''), (''content'', JStr ''In May.''),
              (''sources'', JArr [JObj [(''source'', JStr ''doc.pdf''), (''page'', JNum 2)]])]])"
    by simp
  from f v cf have c2: "lookup (snd ?r) ''uploads/s1/chat.json'' = Some (File (JsonDoc (JArr (?old @
       [JObj [(''role'', JStr ''user''), (''content'', JStr ''When?'')],
        JObj [(''role'', JStr ''assistant''), (''content'', JStr ''In May.''),
              (''sources'', JArr [JObj [(''source'', JStr ''doc.pdf''), (''page'', JNum 2)]])]]))))"
    by simp
  let ?q = "askQuestion demo_world ''s1'' (JStr ''What is this about?'') (Fulfilled (JStr ''A lease.''))"
  let ?cf = "path_join [path_join [''uploads'', ''s1''], ''chat.json'']"
  have "\<not> isl (fst ?q)" by code_simp
  then have q0: "fst ?q = Inr (projr (fst ?q))" by simp
  then have hq: "?q = (Inr (projr (fst ?q)), snd ?q)" by (metis prod.collapse)
  have none: "lookup demo_world ?cf = None" by code_simp
  from ask_success [OF hq] obtain loaded2 answer2 sources2 where
    m2: "projr (fst ?q) = loaded2 @ [JObj [(''role'', JStr ''user''), (''content'', JStr ''What is this about?'')],
                                JObj [(''role'', JStr ''assistant''), (''content'', answer2),
                                      (''sources'', sources2)]]"
    and l2: "lookup demo_world ?cf = None \<longrightarrow> loaded2 = []"
    and a2: "\<forall>s. JStr ''A lease.'' = JStr s \<longrightarrow> answer2 = JStr s \<and> sources2 = JArr []"
    by (elim exE conjE)
  from m2 l2 a2 none q0 have c3: "fst ?q
     = Inr [JObj [(''role'', JStr ''user''), (''content'', JStr ''What is this about?'')],
            JObj [(''role'', JStr ''assistant''), (''content'', JStr ''A lease.''), (''sources'', JArr [])]]"
    by simp
  from c1 c2 c3 show ?thesis by simp
qed

section \<open>Conversation: when the log only grows\<close>

lemma ask_step_log:
  assumes "persisted_log w sessionId = Inr L"
  shows "\<exists>S. persisted_log (snd (askQuestion w sessionId question reply)) sessionId = Inr (L @ S)"
proof (cases "fst (askQuestion w sessionId question reply)")
  case (Inl e)
  then have f: "files (snd (askQuestion w sessionId question reply)) = files w"
    and c: "cwd (snd (askQuestion w sessionId question reply)) = cwd w"
    by (auto simp: askQuestion_def ask_begin_def ask_end_def Let_def
        split: if_splits sum.splits prod.splits)
  have "persisted_log (snd (askQuestion w sessionId question reply)) sessionId
       = persisted_log w sessionId"
    by (simp add: persisted_log_def same_store(5)[OF f c])
  with assms show ?thesis by simp
next
  case (Inr msgs)
  let ?chatFile = "path_join [path_join [''uploads'', sessionId], ''chat.json'']"
  let ?w1 = "w\<lparr>calls := calls w @ [PostAsk sessionId question]\<rparr>"
  from assms have L: "load_messages w ?chatFile = Inr L"
    by (simp add: persisted_log_def)
  from Inr L obtain answer sources w2 where
    wr: "writeFileSync ?w1 ?chatFile
           (JSON_stringify (JArr (L @ [JObj [(''role'', JStr ''user''), (''content'', question)],
              JObj [(''role'', JStr ''assistant''), (''content'', answer), (''sources'', sources)]])))
         = Inr w2"
    and w2: "snd (askQuestion w sessionId question reply) = w2"
    by (auto simp: askQuestion_def ask_begin_def ask_end_def Let_def
        split: if_splits sum.splits prod.splits)
  let ?new = "[JObj [(''role'', JStr ''user''), (''content'', question)],
              JObj [(''role'', JStr ''assistant''), (''content'', answer), (''sources'', sources)]]"
  from writeFileSync_effect(4)[OF wr]
  have "lookup w2 ?chatFile = Some (File (JsonDoc (JArr (L @ ?new))))"
    by (simp add: JSON_stringify_def)
  then have "load_messages w2 ?chatFile = Inr (map elem_norm (L @ ?new))"
    by (simp add: load_messages_def existsSync_def readFileSync_def JSON_parse_def elem_norm_def
        cong: map_cong)
  with load_messages_normal[OF L] w2
  have "persisted_log (snd (askQuestion w sessionId question reply)) sessionId
          = Inr (L @ map elem_norm ?new)"
    by (simp add: persisted_log_def)
  then show ?thesis by blast
qed

lemma ask_in_turn:
  "ask_events w [] (AskArrives sessionId question # PostSettles 0 reply # es)
     = ask_events (snd (askQuestion w sessionId question reply)) [] es"
  by (cases "ask_begin w sessionId question"; cases "fst (ask_begin w sessionId question)")
     (simp_all add: askQuestion_def)

lemma in_turn_log:
  "persisted_log w sessionId = Inr L \<Longrightarrow>
     \<exists>S. persisted_log (fst (ask_events w [] (in_turn sessionId qrs))) sessionId = Inr (L @ S)"
proof (induction qrs arbitrary: w L)
  case Nil
  then show ?case by (simp add: in_turn_def)
next
  case (Cons qr qrs)
  from ask_step_log[OF Cons.prems, of "fst qr" "snd qr"]
  obtain S1 where "persisted_log (snd (askQuestion w sessionId (fst qr) (snd qr))) sessionId
      = Inr (L @ S1)"
    by blast
  from Cons.IH[OF this]
  obtain S where "persisted_log
      (fst (ask_events (snd (askQuestion w sessionId (fst qr) (snd qr))) [] (in_turn sessionId qrs)))
      sessionId = Inr ((L @ S1) @ S)"
    by blast
  moreover have "ask_events w [] (in_turn sessionId (qr # qrs))
      = ask_events (snd (askQuestion w sessionId (fst qr) (snd qr))) [] (in_turn sessionId qrs)"
    using ask_in_turn[of w sessionId "fst qr" "snd qr" "in_turn sessionId qrs"]
    by (simp add: in_turn_def)
  ultimately have "persisted_log (fst (ask_events w [] (in_turn sessionId (qr # qrs)))) sessionId
      = Inr (L @ (S1 @ S))"
    by simp
  then show ?case by blast
qed

text \<open>
  Claim C8, as the code has it. Over any sequence of asks on one session that do not
  overlap (each ask settles before the next arrives), whatever each remote call replies,
  the persisted log after the sequence has the persisted log before it as a prefix: it
  is at least as long and every earlier turn is at its position unchanged.
\<close>

theorem ask_log_append_only:
  assumes "persisted_log w sessionId = Inr L"
  shows "\<exists>L'. persisted_log (fst (ask_events w [] (in_turn sessionId qrs))) sessionId = Inr L'
            \<and> length L \<le> length L'
            \<and> take (length L) L' = L
            \<and> (\<forall>i < length L. L' ! i = L ! i)"
proof -
  from in_turn_log [OF assms, of qrs]
  obtain S where "persisted_log (fst (ask_events w [] (in_turn sessionId qrs))) sessionId
      = Inr (L @ S)"
    by blast
  then show ?thesis by (auto simp: nth_append)
qed

theorem ask_log_append_only_witness:
  "persisted_log busy_world ''s1''
     = Inr [JObj [(''role'', JStr ''user''), (''content'', JStr ''Who signed?'')],
            JObj [(''role'', JStr ''assistant''), (''content'', JStr ''Two parties.''),
                  (''sources'', JArr [])]]
   \<and> (\<exists>L'. persisted_log
              (fst (ask_events busy_world []
                 (in_turn ''s1'' [(JStr ''Second?'', Failed refused),
                                  (JStr ''Third?'', Fulfilled (JObj [(''answer'', JStr ''Three.'')]))])))
              ''s1'' = Inr L'
          \<and> 2 \<le> length L'
          \<and> take 2 L' = [JObj [(''role'', JStr ''user''), (''content'', JStr ''Who signed?'')],
                          JObj [(''role'', JStr ''assistant''), (''content'', JStr ''Two parties.''),
                                (''sources'', JArr [])]])"
proof -
  let ?L = "[JObj [(''role'', JStr ''user''), (''content'', JStr ''Who signed?'')],
             JObj [(''role'', JStr ''assistant''), (''content'', JStr ''Two parties.''),
                   (''sources'', JArr [])]]"
  have h: "persisted_log busy_world ''s1'' = Inr ?L" by code_simp
  from ask_log_append_only [OF h, of "[(JStr ''Second?'', Failed refused),
                  (JStr ''Third?'', Fulfilled (JObj [(''answer'', JStr ''Three.'')]))]"]
  have "\<exists>L'. persisted_log
              (fst (ask_events busy_world []
                 (in_turn ''s1'' [(JStr ''Second?'', Failed refused),
                                  (JStr ''Third?'', Fulfilled (JObj [(''answer'', JStr ''Three.'')]))])))
              ''s1'' = Inr L'
          \<and> 2 \<le> length L' \<and> take 2 L' = ?L"
    by (auto simp: numeral_2_eq_2)
  with h show ?thesis by blast
qed

text \<open>
  Claim C8 as stated fails. In the session \<open>s1\<close>, which has no log yet, a first ask
  arrives and, while its post is pending, a second ask arrives. When the first post
  settles the log holds the two turns of the first ask; when the second post settles
  the log holds the two turns of the second ask only: the turns the first ask persisted
  are gone.
\<close>

theorem ask_overlap_counterexample:
  "persisted_log
     (fst (ask_events demo_world []
        [AskArrives ''s1'' (JStr ''First?''), AskArrives ''s1'' (JStr ''Second?''),
         PostSettles 0 (Fulfilled (JStr ''One.''))])) ''s1''
     = Inr [JObj [(''role'', JStr ''user''), (''content'', JStr ''First?'')],
            JObj [(''role'', JStr ''assistant''), (''content'', JStr ''One.''), (''sources'', JArr [])]]
   \<and> persisted_log
     (fst (ask_events demo_world []
        [AskArrives ''s1'' (JStr ''First?''), AskArrives ''s1'' (JStr ''Second?''),
         PostSettles 0 (Fulfilled (JStr ''One.'')), PostSettles 0 (Fulfilled (JStr ''Two.''))])) ''s1''
     = Inr [JObj [(''role'', JStr ''user''), (''content'', JStr ''Second?'')],
            JObj [(''role'', JStr ''assistant''), (''content'', JStr ''Two.''), (''sources'', JArr [])]]"
  by code_simp

section \<open>Summarizer: the contract\<close>



section \<open>ScanGate\<close>









section \<open>Intake: the risk policy\<close>




section \<open>Intake: the session identifier\<close>













section \<open>Session identifiers as path segments\<close>






end
